theory Spec2Isabelle
  imports Complex_Main "HOL-Library.Sublist"
begin

section \<open>Strings\<close>

text \<open>
  Python strings are modelled as \<open>string\<close>, a list of 8-bit characters: ASCII text is
  itself, and the two non-ASCII code points of the source's literals (the warning sign
  U+26A0 followed by U+FE0F) are written as their UTF-8 bytes. \<open>str.lower\<close> is modelled
  on this alphabet: the capitals \<open>A\<close>..\<open>Z\<close> (codes 65..90) move to \<open>a\<close>..\<open>z\<close>, every other
  character stays. This is what Python computes on ASCII text; case mappings of non-ASCII
  letters are outside the model.
\<close>

definition lower_char :: "char \<Rightarrow> char" where
  "lower_char c =
     (let n = (of_char c :: nat)
      in if 65 \<le> n \<and> n \<le> 90 then char_of (n + 32) else c)"

definition lower :: "string \<Rightarrow> string" where
  "lower s = map lower_char s"

text \<open>
  \<open>str.strip()\<close> removes leading and trailing whitespace. The ASCII characters Python
  counts as whitespace are codes 9..13 and 28..32.
\<close>

definition is_space :: "char \<Rightarrow> bool" where
  "is_space c =
     (let n = (of_char c :: nat)
      in (9 \<le> n \<and> n \<le> 13) \<or> (28 \<le> n \<and> n \<le> 32))"

definition strip :: "string \<Rightarrow> string" where
  "strip s = rev (dropWhile is_space (rev (dropWhile is_space s)))"

text \<open>The substring test \<open>k in t\<close> on strings.\<close>

fun str_in :: "string \<Rightarrow> string \<Rightarrow> bool" where
  "str_in k [] = (k = [])"
| "str_in k (c # t) = (prefix k (c # t) \<or> str_in k t)"

text \<open>\<open>s.startswith(p)\<close>.\<close>

definition startswith :: "string \<Rightarrow> string \<Rightarrow> bool" where
  "startswith s p = prefix p s"

section \<open>The category table and the classifier\<close>

text \<open>
  \<open>CATEGORY_KEYWORDS\<close> is a dict literal; iterating \<open>.items()\<close> follows insertion order,
  so the table is an association list in the order of the literal.
\<close>

definition CATEGORY_KEYWORDS :: "(string \<times> string list) list" where
  "CATEGORY_KEYWORDS =
    [(''World'', [''world'', ''global'', ''ukraine'', ''india'', ''china'', ''europe'',
                  ''middle east'', ''africa'', ''america'']),
     (''Business'', [''business'', ''market'', ''stocks'', ''economy'', ''inflation'',
                     ''trade'', ''bank'', ''startup'']),
     (''Technology'', [''tech'', ''technology'', ''ai'', ''artificial intelligence'',
                       ''software'', ''app'', ''iphone'', ''android'', ''robot'', ''chip'']),
     (''Sports'', [''sport'', ''sports'', ''football'', ''cricket'', ''tennis'', ''match'',
                   ''tournament'', ''olympic'', ''goal'', ''ipl'']),
     (''Entertainment'', [''film'', ''movie'', ''bollywood'', ''hollywood'', ''tv'',
                          ''series'', ''music'', ''celebrity'', ''show'']),
     (''Science'', [''science'', ''space'', ''nasa'', ''research'', ''study'', ''astronomy'']),
     (''Health'', [''health'', ''covid'', ''vaccine'', ''hospital'', ''disease'', ''mental'']),
     (''Environment'', [''climate'', ''environment'', ''weather'', ''heat'', ''flood'',
                        ''wildfire'', ''energy'']),
     (''Education'', [''education'', ''university'', ''school'', ''students'', ''exam'']),
     (''Politics'', [''election'', ''politics'', ''government'', ''parliament'', ''minister'',
                     ''policy'']),
     (''Spiritual'', [''spiritual'', ''meditation'', ''prayer'', ''mindfulness'',
                      ''inner peace'', ''faith'', ''religion'']),
     (''Cyber Security'', [''cyber'', ''security'', ''hacking'', ''data breach'', ''malware'',
                           ''phishing'', ''ransomware'']),
     (''Animals'', [''animals'', ''wildlife'', ''pets'', ''nature'', ''zoo'', ''endangered'',
                    ''species''])]"

definition ALL_CATEGORIES :: "string list" where
  "ALL_CATEGORIES = [''All''] @ map fst CATEGORY_KEYWORDS"

text \<open>
  \<open>guess_category\<close>: the \<open>for cat, keys in CATEGORY_KEYWORDS.items()\<close> loop is the
  recursion \<open>guess_category_loop\<close> over the rest of the table; \<open>any(k in t for k in keys)\<close>
  is \<open>list_ex\<close>; falling out of the loop returns \<open>''World''\<close>.
\<close>

fun guess_category_loop :: "string \<Rightarrow> (string \<times> string list) list \<Rightarrow> string" where
  "guess_category_loop t [] = ''World''"
| "guess_category_loop t ((cat, keys) # rest) =
     (if list_ex (\<lambda>k. str_in k t) keys then cat else guess_category_loop t rest)"

definition guess_category :: "string \<Rightarrow> string" where
  "guess_category title = (let t = lower title in guess_category_loop t CATEGORY_KEYWORDS)"

text \<open>
  \<open>hit t i\<close>: some keyword of the \<open>i\<close>-th category of the table (counted from 0) is a
  substring of \<open>t\<close>. Used to state the classifier's contract.
\<close>

definition hit :: "string \<Rightarrow> nat \<Rightarrow> bool" where
  "hit t i = list_ex (\<lambda>k. sublist k t) (snd (CATEGORY_KEYWORDS ! i))"

section \<open>News items and the scraper\<close>

text \<open>
  A news item is the dict with keys \<open>id\<close>, \<open>title\<close>, \<open>url\<close>, \<open>content\<close>, \<open>category\<close>
  built by \<open>get_bbc_news\<close> (the key \<open>id\<close> is the field \<open>item_id\<close>).
\<close>

record news_item =
  item_id :: int
  title :: string
  url :: string
  content :: string
  category :: string

text \<open>
  What the scraper reads from one selected \<open>h3\<close> element: \<open>get_text\<close> is the value of
  \<open>tag.get_text(strip=True)\<close>, and \<open>parent_href\<close> is the value of
  \<open>parent_a.get("href") if parent_a else None\<close> (\<open>None\<close> when there is no enclosing
  anchor or it has no \<open>href\<close>).
\<close>

record h3_tag =
  get_text :: string
  parent_href :: "string option"

text \<open>
  The outcome of the network and parsing steps of the \<open>try\<close> block (\<open>requests.get\<close>,
  \<open>raise_for_status\<close>, \<open>BeautifulSoup\<close>, \<open>soup.select\<close>): either one of them raises, or
  \<open>select\<close> returns the matching elements in document order. The statements of the loop
  body read strings and cannot raise.
\<close>

datatype fetch_result = Raised | Selected "h3_tag list"

text \<open>The slice \<open>items[:n]\<close>; a negative \<open>n\<close> counts from the end.\<close>

definition slice_to :: "int \<Rightarrow> 'a list \<Rightarrow> 'a list" where
  "slice_to n xs =
     (if 0 \<le> n then take (nat n) xs else take (nat (int (length xs) + n)) xs)"

definition summary :: "string \<Rightarrow> string" where
  "summary title_text = ''This is a short summary for: '' @ title_text @ ''.''"

text \<open>
  \<open>for idx, tag in enumerate(items, start=1)\<close>: \<open>idx\<close> advances on every element, also on
  the ones skipped by \<open>continue\<close>; \<open>news_list.append\<close> adds at the end.
\<close>

fun scrape_loop :: "int \<Rightarrow> h3_tag list \<Rightarrow> news_item list \<Rightarrow> news_item list" where
  "scrape_loop idx [] news_list = news_list"
| "scrape_loop idx (tag # items) news_list =
     (let title_text = get_text tag
      in if title_text = [] then scrape_loop (idx + 1) items news_list
         else
           let href = parent_href tag;
               link = (case href of
                         None \<Rightarrow> ''https://www.bbc.com/news''
                       | Some h \<Rightarrow>
                           if h \<noteq> [] \<and> startswith h ''/'' then ''https://www.bbc.com'' @ h
                           else if h \<noteq> [] then h
                           else ''https://www.bbc.com/news'')
           in scrape_loop (idx + 1) items
                (news_list @
                   [\<lparr>item_id = idx, title = title_text, url = link,
                     content = summary title_text,
                     category = guess_category title_text\<rparr>]))"

definition fallback :: "(string \<times> string \<times> string) list" where
  "fallback =
    [(''AI is Transforming the World'', ''Technology'', ''https://www.bbc.com/news/technology''),
     (''Markets Rally as Inflation Cools'', ''Business'', ''https://www.bbc.com/news/business''),
     (''Global Leaders Meet for Summit'', ''World'', ''https://www.bbc.com/news/world''),
     (''Major Finals Set to Thrill Fans'', ''Sports'', ''https://www.bbc.com/sport''),
     (''discovering the beatiful adventures'', ''travel'', ''https://www.bbc.com/travel''),
     (''Exploring the Depths of the Ocean'', ''Environment'',
        ''https://www.bbc.com/news/science-environment''),
     (''Green Energy Adoption Surges'', ''Environment'',
        ''https://www.bbc.com/future/columns/climate-change''),
     (''Universities Roll Out New Programs'', ''Education'',
        ''https://www.bbc.com/news/education''),
     (''Elections Around the Corner'', ''Politics'', ''https://www.bbc.com/news/politics''),
     (''New Species Discovered in Amazon'', ''Science'',
        ''https://www.bbc.com/news/science-environment''),
     (''Mental Health Awareness Rises'', ''Health'', ''https://www.bbc.com/news/health''),
     (''Blockbuster Movie Breaks Records'', ''Entertainment'',
        ''https://www.bbc.com/news/entertainment_and_arts''),
     (''Cyber Security Threats on the Rise'', ''Cyber Security'',
        ''https://www.bbc.com/news/technology''),
     (''The Rise of Electric Vehicles'', ''Technology'', ''https://www.bbc.com/news/technology''),
     (''AI-Powered Healthcare Innovations'', ''Health'', ''https://www.bbc.com/news/health''),
     (''Amazing Wildlife Discoveries'', ''Animals'',
        ''https://www.bbc.com/news/science-environment'')]"

text \<open>\<open>for i, (title, cat, url) in enumerate(fallback, start=1)\<close>.\<close>

fun fallback_loop ::
  "int \<Rightarrow> (string \<times> string \<times> string) list \<Rightarrow> news_item list \<Rightarrow> news_item list" where
  "fallback_loop i [] news_list = news_list"
| "fallback_loop i ((title_text, cat, link) # rest) news_list =
     fallback_loop (i + 1) rest
       (news_list @
          [\<lparr>item_id = i, title = title_text, url = link,
            content = summary title_text, category = cat\<rparr>])"

text \<open>
  \<open>get_bbc_news\<close>: an exception in the \<open>try\<close> block is caught (and printed), leaving
  \<open>news_list\<close> empty; \<open>if not news_list\<close> then fills it from \<open>fallback\<close>.
\<close>

definition get_bbc_news :: "int \<Rightarrow> fetch_result \<Rightarrow> news_item list" where
  "get_bbc_news max_items resp =
     (let news_list =
            (case resp of
               Raised \<Rightarrow> []
             | Selected tags \<Rightarrow> scrape_loop 1 (slice_to max_items tags) []);
          news_list =
            (if news_list = [] then fallback_loop 1 fallback news_list else news_list)
      in news_list)"

section \<open>The listing route\<close>

text \<open>
  \<open>request.args\<close> is the list of query-string pairs; \<open>args.get(key, default)\<close> gives the
  first value of the key, or the default.
\<close>

definition args_get :: "(string \<times> string) list \<Rightarrow> string \<Rightarrow> string \<Rightarrow> string" where
  "args_get args key dflt = (case map_of args key of Some v \<Rightarrow> v | None \<Rightarrow> dflt)"

text \<open>\<open>for i, n in enumerate(news_list, start=1): n["id"] = i\<close>.\<close>

fun reassign_ids :: "int \<Rightarrow> news_item list \<Rightarrow> news_item list" where
  "reassign_ids i [] = []"
| "reassign_ids i (n # ns) = n\<lparr>item_id := i\<rparr> # reassign_ids (i + 1) ns"

text \<open>
  The variables handed to the template \<open>news.html\<close>, without \<open>last_updated\<close> (the wall
  clock).
\<close>

record index_page =
  tpl_news_list :: "news_item list"
  tpl_query :: string
  tpl_category :: string
  tpl_categories :: "string list"

definition index :: "(string \<times> string) list \<Rightarrow> fetch_result \<Rightarrow> index_page" where
  "index args resp =
     (let query = lower (strip (args_get args ''q'' []));
          cat = args_get args ''category'' ''All'';
          news_list = get_bbc_news 30 resp;
          news_list =
            (if cat \<noteq> [] \<and> cat \<noteq> ''All''
             then filter (\<lambda>n. category n = cat) news_list else news_list);
          news_list =
            (if query \<noteq> []
             then filter (\<lambda>n. str_in query (lower (title n)) \<or>
                              str_in query (lower (content n))) news_list
             else news_list);
          news_list = reassign_ids 1 news_list
      in \<lparr>tpl_news_list = news_list, tpl_query = query, tpl_category = cat,
          tpl_categories = ALL_CATEGORIES\<rparr>)"

text \<open>
  The filters of the listing in one predicate, to state what \<open>index\<close> retains: \<open>q\<close> is the
  raw search text and \<open>cat\<close> the category parameter.
\<close>

definition keeps :: "string \<Rightarrow> string \<Rightarrow> news_item \<Rightarrow> bool" where
  "keeps q cat n \<longleftrightarrow>
     (cat = [] \<or> cat = ''All'' \<or> category n = cat) \<and>
     (lower (strip q) = [] \<or>
      sublist (lower (strip q)) (lower (title n)) \<or>
      sublist (lower (strip q)) (lower (content n)))"

section \<open>The detail route\<close>

datatype py_error = IndexError

text \<open>List indexing \<open>xs[i]\<close>: a negative index counts from the end, out of range raises.\<close>

definition getitem :: "'a list \<Rightarrow> int \<Rightarrow> py_error + 'a" where
  "getitem xs i =
     (if 0 \<le> i \<and> i < int (length xs) then Inr (xs ! nat i)
      else if i < 0 \<and> - int (length xs) \<le> i then Inr (xs ! nat (int (length xs) + i))
      else Inl IndexError)"

text \<open>\<open>detail\<close> returns the item handed to the template \<open>detail.html\<close>.\<close>

definition detail :: "int \<Rightarrow> fetch_result \<Rightarrow> py_error + news_item" where
  "detail news_id resp =
     (let news_list = get_bbc_news 30 resp
      in if 1 \<le> news_id \<and> news_id \<le> int (length news_list)
         then getitem news_list (news_id - 1)
         else getitem news_list 0)"

section \<open>The question route\<close>

text \<open>
  JSON values as \<open>json.loads\<close> builds them: \<open>None\<close>, \<open>bool\<close>, \<open>int\<close>, \<open>float\<close>, \<open>str\<close>,
  \<open>list\<close> and \<open>dict\<close> (a parsed dict has distinct keys).
\<close>

datatype py_float = Finite rat | PosInf | NegInf | NaN

datatype json =
    JNull
  | JBool bool
  | JInt int
  | JFloat py_float
  | JStr string
  | JArr "json list"
  | JObj "(string \<times> json) list"

text \<open>Truth value of a Python object, as \<open>not question\<close> tests it.\<close>

fun truthy :: "json \<Rightarrow> bool" where
  "truthy JNull = False"
| "truthy (JBool b) = b"
| "truthy (JInt i) = (i \<noteq> 0)"
| "truthy (JFloat f) = (f \<noteq> Finite 0)"
| "truthy (JStr s) = (s \<noteq> [])"
| "truthy (JArr xs) = (xs \<noteq> [])"
| "truthy (JObj d) = (d \<noteq> [])"

text \<open>\<open>d.get(key)\<close>: the value, or \<open>None\<close>.\<close>

definition dict_get :: "(string \<times> json) list \<Rightarrow> string \<Rightarrow> json" where
  "dict_get d key = (case map_of d key of Some v \<Rightarrow> v | None \<Rightarrow> JNull)"

text \<open>
  The outcome of \<open>model.generate_content(question)\<close> and of reading the response: it
  raises (with the exception's text), or gives a response with its \<open>text\<close> attribute
  (\<open>None\<close> when absent) and its \<open>str\<close>.
\<close>

datatype gen_result = GenRaised string | GenResponse "string option" string

text \<open>
  The module state set at import time (\<open>genai_available\<close>, \<open>model\<close>), and Python's \<open>str\<close>
  on values that are not strings, which the f-string applies to such a question.
\<close>

record ask_env =
  genai_available :: bool
  model :: "(json \<Rightarrow> gen_result) option"
  py_str :: "json \<Rightarrow> string"

definition format_value :: "ask_env \<Rightarrow> json \<Rightarrow> string" where
  "format_value env v = (case v of JStr s \<Rightarrow> s | _ \<Rightarrow> py_str env v)"

text \<open>The warning sign U+26A0 U+FE0F that starts the fixed messages, in UTF-8.\<close>

definition warning_sign :: string where
  "warning_sign = [CHR 0xE2, CHR 0x9A, CHR 0xA0, CHR 0xEF, CHR 0xB8, CHR 0x8F]"

text \<open>
  The response of \<open>ask\<close>: the HTTP status, the \<open>answer\<close> field of the JSON body, and the
  prompts passed to \<open>model.generate_content\<close> while handling the request.
\<close>

record ask_response =
  status :: int
  answer :: string
  model_calls :: "json list"

text \<open>
  \<open>ask\<close>: the argument \<open>body\<close> is the outcome of \<open>request.get_json(force=True)\<close>, the
  parsed value or the text of the exception it raises.
\<close>

definition ask :: "ask_env \<Rightarrow> string + json \<Rightarrow> ask_response" where
  "ask env body =
     (case body of
        Inl e \<Rightarrow>
          \<lparr>status = 500, answer = warning_sign @ '' Server error: '' @ e, model_calls = []\<rparr>
      | Inr data \<Rightarrow>
          (let question = (case data of JObj d \<Rightarrow> dict_get d ''question'' | _ \<Rightarrow> JNull)
           in if \<not> truthy question
              then \<lparr>status = 400, answer = warning_sign @ '' No question provided.'',
                    model_calls = []\<rparr>
              else
                (case (if genai_available env then model env else None) of
                   Some m \<Rightarrow>
                     \<lparr>status = 200,
                      answer =
                        (case m question of
                           GenRaised e \<Rightarrow> warning_sign @ '' Gemini error: '' @ e
                         | GenResponse txt s \<Rightarrow>
                             (case txt of
                                Some t \<Rightarrow> if t \<noteq> [] then t else s
                              | None \<Rightarrow> s)),
                      model_calls = [question]\<rparr>
                 | None \<Rightarrow>
                     \<lparr>status = 200,
                      answer = ''(local) You asked: '' @ format_value env question,
                      model_calls = []\<rparr>)))"

section \<open>A sample page\<close>

text \<open>
  Four selected elements, the first with no text, used to run the scraper, the listing and
  the detail lookup on a concrete page.
\<close>

definition sample_tags :: "h3_tag list" where
  "sample_tags =
     [\<lparr>get_text = [], parent_href = Some ''/news/empty''\<rparr>,
      \<lparr>get_text = ''Stocks Rally'', parent_href = Some ''/news/business-1''\<rparr>,
      \<lparr>get_text = ''Heat Wave'', parent_href = None\<rparr>,
      \<lparr>get_text = ''Bank Merger'', parent_href = Some ''https://example.org/bank''\<rparr>]"

section \<open>Substring test\<close>

lemma str_in_iff_sublist: "str_in k t \<longleftrightarrow> sublist k t"
proof (induction t)
  case Nil
  show ?case by auto
next
  case (Cons c t)
  show ?case
  proof (cases k)
    case Nil
    then show ?thesis by simp
  next
    case (Cons a k')
    then show ?thesis using Cons.IH by (simp add: sublist_Cons_right)
  qed
qed

lemma str_in_iff: "str_in k t \<longleftrightarrow> (\<exists>ps ss. t = ps @ k @ ss)"
  by (simp add: str_in_iff_sublist sublist_def)

section \<open>The classifier\<close>

lemma loop_first:
  "i < length tbl \<Longrightarrow> list_ex (\<lambda>k. str_in k t) (snd (tbl ! i)) \<Longrightarrow>
   (\<forall>j<i. \<not> list_ex (\<lambda>k. str_in k t) (snd (tbl ! j))) \<Longrightarrow>
   guess_category_loop t tbl = fst (tbl ! i)"
proof (induction t tbl arbitrary: i rule: guess_category_loop.induct)
  case (1 t)
  then show ?case by simp
next
  case (2 t cat keys rest)
  show ?case
  proof (cases i)
    case 0
    with 2 show ?thesis by simp
  next
    case (Suc i')
    from 2(4) Suc have no: "\<not> list_ex (\<lambda>k. str_in k t) keys" by fastforce
    have "\<forall>j<i'. \<not> list_ex (\<lambda>k. str_in k t) (snd (rest ! j))"
      using 2(4) Suc by fastforce
    with 2 Suc no show ?thesis by simp
  qed
qed

lemma loop_none:
  "(\<forall>i<length tbl. \<not> list_ex (\<lambda>k. str_in k t) (snd (tbl ! i))) \<Longrightarrow>
   guess_category_loop t tbl = ''World''"
proof (induction t tbl rule: guess_category_loop.induct)
  case (1 t)
  then show ?case by simp
next
  case (2 t cat keys rest)
  from 2(2) have no: "\<not> list_ex (\<lambda>k. str_in k t) keys" by fastforce
  have "\<forall>i<length rest. \<not> list_ex (\<lambda>k. str_in k t) (snd (rest ! i))"
    using 2(2) by fastforce
  with 2 no show ?case by simp
qed

lemma loop_result:
  "guess_category_loop t tbl = ''World'' \<and> (\<forall>i<length tbl. \<not> list_ex (\<lambda>k. str_in k t) (snd (tbl ! i)))
   \<or> (\<exists>i<length tbl. guess_category_loop t tbl = fst (tbl ! i) \<and> list_ex (\<lambda>k. str_in k t) (snd (tbl ! i))
         \<and> (\<forall>j<i. \<not> list_ex (\<lambda>k. str_in k t) (snd (tbl ! j))))"
proof (induction t tbl rule: guess_category_loop.induct)
  case (1 t)
  then show ?case by simp
next
  case (2 t cat keys rest)
  show ?case
  proof (cases "list_ex (\<lambda>k. str_in k t) keys")
    case True
    then have "0 < length ((cat, keys) # rest) \<and> guess_category_loop t ((cat, keys) # rest) = fst (((cat, keys) # rest) ! 0) \<and>
      list_ex (\<lambda>k. str_in k t) (snd (((cat, keys) # rest) ! 0)) \<and> (\<forall>j<0. \<not> list_ex (\<lambda>k. str_in k t) (snd (((cat, keys) # rest) ! j)))"
      by simp
    then show ?thesis by blast
  next
    case False
    from 2[OF False] show ?thesis
    proof
      assume a: "guess_category_loop t rest = ''World'' \<and> (\<forall>i<length rest. \<not> list_ex (\<lambda>k. str_in k t) (snd (rest ! i)))"
      have "\<forall>i<length ((cat, keys) # rest). \<not> list_ex (\<lambda>k. str_in k t) (snd (((cat, keys) # rest) ! i))"
        using a False by (auto simp: nth_Cons split: nat.splits)
      with a False show ?thesis by simp
    next
      assume "\<exists>i<length rest. guess_category_loop t rest = fst (rest ! i) \<and> list_ex (\<lambda>k. str_in k t) (snd (rest ! i))
         \<and> (\<forall>j<i. \<not> list_ex (\<lambda>k. str_in k t) (snd (rest ! j)))"
      then obtain i where i: "i < length rest" "guess_category_loop t rest = fst (rest ! i)"
         "list_ex (\<lambda>k. str_in k t) (snd (rest ! i))" "\<forall>j<i. \<not> list_ex (\<lambda>k. str_in k t) (snd (rest ! j))"
        by blast
      have "\<forall>j<Suc i. \<not> list_ex (\<lambda>k. str_in k t) (snd (((cat, keys) # rest) ! j))"
        using i(4) False by (auto simp: nth_Cons split: nat.splits)
      with i False have "Suc i < length ((cat, keys) # rest) \<and> guess_category_loop t ((cat, keys) # rest) = fst (((cat, keys) # rest) ! Suc i) \<and>
        list_ex (\<lambda>k. str_in k t) (snd (((cat, keys) # rest) ! Suc i)) \<and> (\<forall>j<Suc i. \<not> list_ex (\<lambda>k. str_in k t) (snd (((cat, keys) # rest) ! j)))"
        by simp
      then show ?thesis by blast
    qed
  qed
qed

lemma distinct_labels: "distinct (map fst CATEGORY_KEYWORDS)"
  by code_simp

lemma length_table: "length CATEGORY_KEYWORDS = 13"
  by code_simp

lemma hit_eq: "hit t i = list_ex (\<lambda>k. str_in k t) (snd (CATEGORY_KEYWORDS ! i))"
  by (simp add: hit_def str_in_iff_sublist)


section \<open>The scraper and the renumbering\<close>

lemma scrape_loop_append:
  "scrape_loop idx tags acc = acc @ scrape_loop idx tags []"
proof (induction tags arbitrary: idx acc)
  case Nil
  show ?case by simp
next
  case (Cons tag tags)
  show ?case
  proof (cases "get_text tag = []")
    case True
    then show ?thesis using Cons.IH[of "idx + 1" acc] by simp
  next
    case False
    then show ?thesis
      using Cons.IH[of "idx + 1" "acc @ [x]" for x] Cons.IH[of "idx + 1" "[x]" for x]
      by (simp add: Let_def)
  qed
qed

lemma scrape_loop_empty_iff:
  "scrape_loop idx tags [] = [] \<longleftrightarrow> (\<forall>t\<in>set tags. get_text t = [])"
proof (induction tags arbitrary: idx)
  case Nil
  show ?case by simp
next
  case (Cons tag tags)
  show ?case
  proof (cases "get_text tag = []")
    case True
    then show ?thesis using Cons.IH[of "idx + 1"] by simp
  next
    case False
    then show ?thesis
      using scrape_loop_append[of "idx + 1" tags "[x]" for x]
      by (simp add: Let_def)
  qed
qed


lemma get_bbc_news_Raised: "get_bbc_news m Raised = fallback_loop 1 fallback []"
  by (simp add: get_bbc_news_def)

lemma get_bbc_news_Selected:
  "get_bbc_news m (Selected tags) =
     (if scrape_loop 1 (slice_to m tags) [] = [] then fallback_loop 1 fallback []
      else scrape_loop 1 (slice_to m tags) [])"
  by (cases "scrape_loop 1 (slice_to m tags) [] = []") (simp_all add: get_bbc_news_def Let_def)

lemma fallback_titles:
  "map (\<lambda>n. (title n, category n, url n)) (fallback_loop 1 fallback []) = fallback"
  by (simp add: fallback_def)

lemma fallback_ids:
  "map item_id (fallback_loop 1 fallback []) = [1, 2, 3, 4, 5, 6, 7, 8, 9, 10, 11, 12, 13, 14, 15, 16]"
  by (simp add: fallback_def)

lemma fallback_contents:
  "map content (fallback_loop 1 fallback []) = map (\<lambda>n. summary (title n)) (fallback_loop 1 fallback [])"
  by (simp add: fallback_def)

lemma fallback_length: "length (fallback_loop 1 fallback []) = 16"
  using arg_cong[OF fallback_ids, of length] by simp

lemma fallback_nonempty: "fallback_loop 1 fallback [] \<noteq> []"
  using fallback_length by auto

lemma get_bbc_news_nonempty: "get_bbc_news m resp \<noteq> []"
proof (cases resp)
  case Raised
  then show ?thesis by (simp add: get_bbc_news_Raised fallback_nonempty)
next
  case (Selected tags)
  then show ?thesis
    by (simp add: get_bbc_news_Selected fallback_nonempty)
qed

lemma reassign_ids_length: "length (reassign_ids i ns) = length ns"
  by (induction ns arbitrary: i) simp_all

lemma reassign_ids_nth:
  "j < length ns \<Longrightarrow> reassign_ids i ns ! j = (ns ! j)\<lparr>item_id := i + int j\<rparr>"
proof (induction ns arbitrary: i j)
  case Nil
  then show ?case by simp
next
  case (Cons n ns)
  show ?case
  proof (cases j)
    case 0
    then show ?thesis by simp
  next
    case (Suc j')
    with Cons.prems have "j' < length ns" by simp
    from Cons.IH[OF this, of "i + 1"] Suc show ?thesis by simp
  qed
qed

lemma reassign_ids_ids:
  "map item_id (reassign_ids i ns) = map (\<lambda>j. i + int j) [0..<length ns]"
  by (rule nth_equalityI) (simp_all add: reassign_ids_length reassign_ids_nth)

lemma index_news_list:
  "tpl_news_list (index args resp) =
     reassign_ids 1
       (filter (keeps (args_get args ''q'' []) (args_get args ''category'' ''All''))
          (get_bbc_news 30 resp))"
proof -
  have "filter (\<lambda>n. P n \<and> Q n) xs = filter Q (filter P xs)" for P Q and xs :: "news_item list"
    by (induction xs) auto
  then show ?thesis
    by (auto simp add: index_def Let_def keeps_def str_in_iff_sublist intro!: arg_cong[where f="reassign_ids 1"] filter_cong)
qed

section \<open>Claims\<close>

text \<open>
  Claim C1 (amended). For every input string, \<open>guess_category\<close> lower-cases the input and
  walks the table in declaration order: when category number \<open>i\<close> is the first one with a
  keyword that is a substring of the lower-cased input, the result is its label; when no
  category has one, the result is \<open>''World''\<close>. So a headline with a keyword of an earlier
  category \<open>a\<close> and of a later category \<open>b\<close> classifies as \<open>a\<close> when no category before
  \<open>a\<close> has a keyword in it, and never as \<open>b\<close>. The function is total.
\<close>

theorem guess_category_first_match:
  "(\<forall>i<length CATEGORY_KEYWORDS. hit (lower headline) i \<and> (\<forall>j<i. \<not> hit (lower headline) j)
       \<longrightarrow> guess_category headline = fst (CATEGORY_KEYWORDS ! i))
   \<and> ((\<forall>i<length CATEGORY_KEYWORDS. \<not> hit (lower headline) i) \<longrightarrow> guess_category headline = ''World'')
   \<and> (\<forall>a b. a < b \<and> b < length CATEGORY_KEYWORDS \<and> hit (lower headline) a
       \<longrightarrow> guess_category headline \<noteq> fst (CATEGORY_KEYWORDS ! b))"
proof (intro conjI allI impI)
  fix i assume "i < length CATEGORY_KEYWORDS" "hit (lower headline) i \<and> (\<forall>j<i. \<not> hit (lower headline) j)"
  then show "guess_category headline = fst (CATEGORY_KEYWORDS ! i)"
    unfolding guess_category_def Let_def hit_eq by (intro loop_first) auto
next
  assume "\<forall>i<length CATEGORY_KEYWORDS. \<not> hit (lower headline) i"
  then show "guess_category headline = ''World''"
    unfolding guess_category_def Let_def hit_eq by (intro loop_none) auto
next
  fix a b assume ab: "a < b \<and> b < length CATEGORY_KEYWORDS \<and> hit (lower headline) a"
  let ?t = "lower headline"
  from loop_result[of ?t CATEGORY_KEYWORDS] ab
  obtain i where i: "i < length CATEGORY_KEYWORDS" "guess_category headline = fst (CATEGORY_KEYWORDS ! i)"
     "\<forall>j<i. \<not> hit ?t j"
    unfolding guess_category_def Let_def hit_eq by (metis less_trans)
  from i(3) ab have "i \<le> a" by (meson not_le_imp_less)
  with ab have "i \<noteq> b" "i < length (map fst CATEGORY_KEYWORDS)" "b < length (map fst CATEGORY_KEYWORDS)" using i(1) by auto
  with distinct_labels have "map fst CATEGORY_KEYWORDS ! i \<noteq> map fst CATEGORY_KEYWORDS ! b"
    using nth_eq_iff_index_eq[of "map fst CATEGORY_KEYWORDS" i b] by blast
  with i(1,2) ab show "guess_category headline \<noteq> fst (CATEGORY_KEYWORDS ! b)" by simp
qed

text \<open>
  The theorem at the headline \<open>''Football Match on TV''\<close> (Sports and Entertainment both
  have a keyword in it, nothing earlier has) and at the empty string.
\<close>

theorem guess_category_first_match_witness:
  "hit (lower ''Football Match on TV'') 3 \<and> hit (lower ''Football Match on TV'') 4
   \<and> list_all (\<lambda>j. \<not> hit (lower ''Football Match on TV'') j) [0..<3]
   \<and> guess_category ''Football Match on TV'' = ''Sports''
   \<and> guess_category ''Football Match on TV'' \<noteq> ''Entertainment''
   \<and> list_all (\<lambda>i. \<not> hit (lower []) i) [0..<length CATEGORY_KEYWORDS]
   \<and> guess_category [] = ''World''"
proof -
  let ?t = "lower ''Football Match on TV''"
  have h3: "hit ?t 3" by code_simp
  have h4: "hit ?t 4" by code_simp
  have a3: "list_all (\<lambda>j. \<not> hit ?t j) [0..<3]" by code_simp
  then have n3: "\<forall>j<3. \<not> hit ?t j" by (simp add: list_all_iff)
  have e3: "fst (CATEGORY_KEYWORDS ! 3) = ''Sports''" by code_simp
  have e4: "fst (CATEGORY_KEYWORDS ! 4) = ''Entertainment''" by code_simp
  have l: "(3::nat) < length CATEGORY_KEYWORDS" "(4::nat) < length CATEGORY_KEYWORDS"
    by (simp_all add: length_table)
  have a0: "list_all (\<lambda>i. \<not> hit (lower []) i) [0..<length CATEGORY_KEYWORDS]" by code_simp
  then have n0: "\<forall>i<length CATEGORY_KEYWORDS. \<not> hit (lower []) i" by (simp add: list_all_iff)
  note T = guess_category_first_match[of "''Football Match on TV''"]
  from T have "(3::nat) < length CATEGORY_KEYWORDS \<longrightarrow> hit ?t 3 \<and> (\<forall>j<3. \<not> hit ?t j)
       \<longrightarrow> guess_category ''Football Match on TV'' = fst (CATEGORY_KEYWORDS ! 3)"
    by blast
  with l h3 n3 e3 have r1: "guess_category ''Football Match on TV'' = ''Sports''" by simp
  from T have "(3::nat) < 4 \<and> (4::nat) < length CATEGORY_KEYWORDS \<and> hit ?t 3
       \<longrightarrow> guess_category ''Football Match on TV'' \<noteq> fst (CATEGORY_KEYWORDS ! 4)"
    by blast
  with l h3 e4 have r2: "guess_category ''Football Match on TV'' \<noteq> ''Entertainment''" by simp
  from guess_category_first_match[of "[]"] n0 have r3: "guess_category [] = ''World''" by blast
  from h3 h4 a3 r1 r2 a0 r3 show ?thesis by blast
qed

text \<open>
  Claim C1 as stated fails: \<open>''Faith and Security''\<close> has the keyword \<open>faith\<close> of Spiritual
  (category 10) and the keyword \<open>security\<close> of the later Cyber Security (category 11), and
  is classified as Technology, whose keyword \<open>ai\<close> occurs inside \<open>faith\<close>.
\<close>

theorem guess_category_tie_break_counterexample:
  "fst (CATEGORY_KEYWORDS ! 10) = ''Spiritual'' \<and> hit (lower ''Faith and Security'') 10
   \<and> fst (CATEGORY_KEYWORDS ! 11) = ''Cyber Security'' \<and> hit (lower ''Faith and Security'') 11
   \<and> guess_category ''Faith and Security'' = ''Technology''
   \<and> guess_category ''Faith and Security'' \<noteq> ''Spiritual''"
  by code_simp

text \<open>
  Claim C2. Let \<open>L\<close> be the fetched list and \<open>F\<close> the items of \<open>L\<close> that pass the category
  and search filters, in the order of \<open>L\<close>. The listing returns as many items as \<open>F\<close> has,
  its ids are \<open>1, 2, ..., length F\<close>, and its \<open>j\<close>-th item is the \<open>j\<close>-th item of \<open>F\<close> with
  only the id replaced. When the category is \<open>All\<close> (the default when absent) or empty and
  the search text trims to the empty string, \<open>F\<close> is the whole of \<open>L\<close>.
\<close>

theorem index_renumbers:
  "(let L = get_bbc_news 30 resp;
        q = args_get args ''q'' [];
        cat = args_get args ''category'' ''All'';
        F = filter (keeps q cat) L;
        R = tpl_news_list (index args resp)
    in length R = length F
       \<and> map item_id R = map int [1..<Suc (length F)]
       \<and> (\<forall>j<length F. R ! j = (F ! j)\<lparr>item_id := int j + 1\<rparr>)
       \<and> ((cat = ''All'' \<or> cat = []) \<and> strip q = [] \<longrightarrow> F = L))"
proof -
  let ?L = "get_bbc_news 30 resp"
  let ?q = "args_get args ''q'' []"
  let ?cat = "args_get args ''category'' ''All''"
  let ?F = "filter (keeps ?q ?cat) ?L"
  let ?R = "tpl_news_list (index args resp)"
  have R: "?R = reassign_ids 1 ?F" by (rule index_news_list)
  have 1: "length ?R = length ?F" by (simp add: R reassign_ids_length)
  have "map item_id ?R = map (\<lambda>j. 1 + int j) [0..<length ?F]"
    by (simp add: R reassign_ids_ids)
  also have "\<dots> = map int [1..<Suc (length ?F)]"
    by (rule nth_equalityI) (simp_all add: nth_upt del: upt_Suc)
  finally have 2: "map item_id ?R = map int [1..<Suc (length ?F)]" .
  have 3: "\<forall>j<length ?F. ?R ! j = (?F ! j)\<lparr>item_id := int j + 1\<rparr>"
    by (simp add: R reassign_ids_nth add.commute)
  have 4: "(?cat = ''All'' \<or> ?cat = []) \<and> strip ?q = [] \<longrightarrow> ?F = ?L"
    by (auto simp add: keeps_def lower_def)
  from 1 2 3 4 show ?thesis by (simp only: Let_def)
qed

text \<open>
  The theorem on the sample page: the scraped ids are 2, 3, 4; the category filter keeps
  the items with ids 2 and 4, which come back numbered 1 and 2; without filters all three
  come back numbered 1, 2, 3.
\<close>

theorem index_renumbers_witness:
  "map item_id (get_bbc_news 30 (Selected sample_tags)) = [2, 3, 4]
   \<and> map item_id (filter (keeps [] ''Business'') (get_bbc_news 30 (Selected sample_tags))) = [2, 4]
   \<and> map item_id (tpl_news_list (index [(''category'', ''Business'')] (Selected sample_tags))) = [1, 2]
   \<and> map title (tpl_news_list (index [(''category'', ''Business'')] (Selected sample_tags)))
       = [''Stocks Rally'', ''Bank Merger'']
   \<and> map item_id (tpl_news_list (index [(''category'', ''All''), (''q'', '' '')] (Selected sample_tags))) = [1, 2, 3]
   \<and> map title (tpl_news_list (index [(''category'', ''All''), (''q'', '' '')] (Selected sample_tags)))
       = [''Stocks Rally'', ''Heat Wave'', ''Bank Merger'']"
proof -
  let ?L = "get_bbc_news 30 (Selected sample_tags)"
  have L: "map item_id ?L = [2, 3, 4]"
          "map title ?L = [''Stocks Rally'', ''Heat Wave'', ''Bank Merger'']" by code_simp+
  have F: "map item_id (filter (keeps [] ''Business'') ?L) = [2, 4]"
          "map title (filter (keeps [] ''Business'') ?L) = [''Stocks Rally'', ''Bank Merger'']"
    by code_simp+
  have a1: "args_get [(''category'', ''Business'')] ''q'' [] = []"
           "args_get [(''category'', ''Business'')] ''category'' ''All'' = ''Business''"
    by code_simp+
  have a2: "args_get [(''category'', ''All''), (''q'', '' '')] ''q'' [] = '' ''"
           "args_get [(''category'', ''All''), (''q'', '' '')] ''category'' ''All'' = ''All''"
           "strip '' '' = []"
    by code_simp+
  have lenF: "length (filter (keeps [] ''Business'') ?L) = 2"
    using arg_cong[OF F(1), of length] by simp
  have lenL: "length ?L = 3"
    using arg_cong[OF L(1), of length] by simp
  note T1 = index_renumbers[of "Selected sample_tags" "[(''category'', ''Business'')]",
      unfolded Let_def a1]
  from T1 lenF have i1: "map item_id (tpl_news_list (index [(''category'', ''Business'')] (Selected sample_tags))) = [1, 2]"
    by (simp add: upt_rec)
  have "map title (tpl_news_list (index [(''category'', ''Business'')] (Selected sample_tags)))
      = map title (filter (keeps [] ''Business'') ?L)"
    by (rule nth_equalityI) (use T1 in simp_all)
  with F have t1: "map title (tpl_news_list (index [(''category'', ''Business'')] (Selected sample_tags)))
       = [''Stocks Rally'', ''Bank Merger'']" by simp
  note T2 = index_renumbers[of "Selected sample_tags" "[(''category'', ''All''), (''q'', '' '')]",
      unfolded Let_def a2]
  from T2 have FL: "filter (keeps '' '' ''All'') ?L = ?L" by simp
  from T2 lenL have i2: "map item_id (tpl_news_list (index [(''category'', ''All''), (''q'', '' '')] (Selected sample_tags))) = [1, 2, 3]"
    by (simp add: FL upt_rec)
  have "map title (tpl_news_list (index [(''category'', ''All''), (''q'', '' '')] (Selected sample_tags)))
      = map title ?L"
    by (rule nth_equalityI) (use T2 in \<open>simp_all add: FL\<close>)
  with L have t2: "map title (tpl_news_list (index [(''category'', ''All''), (''q'', '' '')] (Selected sample_tags)))
       = [''Stocks Rally'', ''Heat Wave'', ''Bank Merger'']" by simp
  from L(1) F(1) i1 t1 i2 t2 show ?thesis by blast
qed

text \<open>
  Claim C3 fails on the fallback path: when the fetch raises, the fifth returned item
  carries the literal category \<open>travel\<close>, which is neither a label of the table nor the
  default.
\<close>

theorem fallback_category_outside_table:
  "category (get_bbc_news 30 Raised ! 4) = ''travel''
   \<and> ''travel'' \<notin> set (''World'' # map fst CATEGORY_KEYWORDS)"
  by code_simp

text \<open>
  Claim C4. When the fetch raises, or every selected element within the first \<open>max_items\<close>
  has an empty text, \<open>get_bbc_news\<close> returns the 16 fallback items: titles, categories and
  links are those of the literal list, in order, the ids are 1..16, each content is the
  summary of the title. The first item has title \<open>AI is Transforming the World\<close> and
  category \<open>Technology\<close>, which is not what the classifier gives for that title. The result
  is a plain list: no error reaches the caller.
\<close>

theorem get_bbc_news_fallback:
  "resp = Raised \<or> (\<exists>tags. resp = Selected tags \<and> (\<forall>t\<in>set (slice_to max_items tags). get_text t = [])) \<Longrightarrow>
   (let R = get_bbc_news max_items resp
    in length R = 16
       \<and> map (\<lambda>n. (title n, category n, url n)) R = fallback
       \<and> map item_id R = [1, 2, 3, 4, 5, 6, 7, 8, 9, 10, 11, 12, 13, 14, 15, 16]
       \<and> map content R = map (\<lambda>n. summary (title n)) R
       \<and> title (R ! 0) = ''AI is Transforming the World''
       \<and> category (R ! 0) = ''Technology''
       \<and> guess_category (title (R ! 0)) \<noteq> category (R ! 0))"
proof -
  assume "resp = Raised \<or> (\<exists>tags. resp = Selected tags \<and> (\<forall>t\<in>set (slice_to max_items tags). get_text t = []))"
  then have R: "get_bbc_news max_items resp = fallback_loop 1 fallback []"
    by (auto simp add: get_bbc_news_Raised get_bbc_news_Selected scrape_loop_empty_iff)
  have "title (fallback_loop 1 fallback [] ! 0) = ''AI is Transforming the World''"
       "category (fallback_loop 1 fallback [] ! 0) = ''Technology''"
    by (simp_all add: fallback_def)
  moreover have "guess_category ''AI is Transforming the World'' = ''World''"
    by code_simp
  ultimately have "guess_category (title (fallback_loop 1 fallback [] ! 0)) \<noteq>
      category (fallback_loop 1 fallback [] ! 0)"
    by simp
  note this \<open>title (fallback_loop 1 fallback [] ! 0) = ''AI is Transforming the World''\<close>
    \<open>category (fallback_loop 1 fallback [] ! 0) = ''Technology''\<close>
  then show ?thesis
    unfolding Let_def R using fallback_length fallback_titles fallback_ids fallback_contents by simp
qed

text \<open>The theorem when the fetch raises and on a page whose only element has no text.\<close>

theorem get_bbc_news_fallback_witness:
  "length (get_bbc_news 30 Raised) = 16
   \<and> title (get_bbc_news 30 Raised ! 0) = ''AI is Transforming the World''
   \<and> category (get_bbc_news 30 Raised ! 0) = ''Technology''
   \<and> slice_to 30 [\<lparr>get_text = [], parent_href = Some ''/news/a''\<rparr>]
       = [\<lparr>get_text = [], parent_href = Some ''/news/a''\<rparr>]
   \<and> length (get_bbc_news 30 (Selected [\<lparr>get_text = [], parent_href = Some ''/news/a''\<rparr>])) = 16
   \<and> map (\<lambda>n. (title n, category n, url n))
        (get_bbc_news 30 (Selected [\<lparr>get_text = [], parent_href = Some ''/news/a''\<rparr>])) = fallback"
proof -
  let ?tag = "\<lparr>get_text = [], parent_href = Some ''/news/a''\<rparr>"
  have s: "slice_to 30 [?tag] = [?tag]" by (simp add: slice_to_def)
  have h1: "(Raised :: fetch_result) = Raised \<or>
      (\<exists>tags. Raised = Selected tags \<and> (\<forall>t\<in>set (slice_to 30 tags). get_text t = []))"
    by simp
  have h2: "Selected [?tag] = Raised \<or>
      (\<exists>tags. Selected [?tag] = Selected tags \<and> (\<forall>t\<in>set (slice_to 30 tags). get_text t = []))"
    by (simp add: s)
  from get_bbc_news_fallback[OF h1] get_bbc_news_fallback[OF h2] s
  show ?thesis by (simp add: Let_def)
qed

text \<open>
  Claim C5. With a search text that is non-empty after trimming and lower-casing, the
  listing is the renumbering of exactly the fetched items whose lower-cased title or
  lower-cased content contains it, when no category filter applies; with a category filter
  as well, of exactly the items that have that category and contain the search text.
\<close>

theorem index_search_filter:
  "(let query = lower (strip (args_get args ''q'' []));
        cat = args_get args ''category'' ''All'';
        L = get_bbc_news 30 resp;
        R = tpl_news_list (index args resp)
    in query \<noteq> [] \<longrightarrow>
       (cat = [] \<or> cat = ''All'' \<longrightarrow>
          R = reassign_ids 1
                (filter (\<lambda>n. sublist query (lower (title n)) \<or>
                              sublist query (lower (content n))) L))
       \<and> (cat \<noteq> [] \<and> cat \<noteq> ''All'' \<longrightarrow>
          R = reassign_ids 1
                (filter (\<lambda>n. category n = cat \<and>
                              (sublist query (lower (title n)) \<or>
                               sublist query (lower (content n)))) L)))"
  unfolding Let_def index_news_list
  by (auto simp add: keeps_def intro!: arg_cong[where f="reassign_ids 1"] filter_cong)

text \<open>
  The theorem on the sample page: an upper-case query with blanks around it matches a
  title, a query matches through the content only, and a category filter narrows a query
  that matches every item.
\<close>

theorem index_search_filter_witness:
  "map title (tpl_news_list (index [(''q'', '' RALLY '')] (Selected sample_tags))) = [''Stocks Rally'']
   \<and> map title (tpl_news_list (index [(''q'', ''SUMMARY FOR: HEAT'')] (Selected sample_tags)))
       = [''Heat Wave'']
   \<and> map title (tpl_news_list (index [(''q'', ''A'')] (Selected sample_tags)))
       = [''Stocks Rally'', ''Heat Wave'', ''Bank Merger'']
   \<and> map title (tpl_news_list (index [(''q'', ''A''), (''category'', ''Business'')] (Selected sample_tags)))
       = [''Stocks Rally'', ''Bank Merger'']"
proof -
  let ?L = "get_bbc_news 30 (Selected sample_tags)"
  have mt: "map title (reassign_ids i ns) = map title ns" for i ns
    by (rule nth_equalityI) (simp_all add: reassign_ids_length reassign_ids_nth)
  have a1: "lower (strip (args_get [(''q'', '' RALLY '')] ''q'' [])) = ''rally''"
           "args_get [(''q'', '' RALLY '')] ''category'' ''All'' = ''All''"
    by code_simp+
  have f1: "map title (filter (\<lambda>n. sublist ''rally'' (lower (title n)) \<or>
                sublist ''rally'' (lower (content n))) ?L) = [''Stocks Rally'']"
    by code_simp
  from index_search_filter[of "[(''q'', '' RALLY '')]" "Selected sample_tags", unfolded Let_def a1]
  have r1: "map title (tpl_news_list (index [(''q'', '' RALLY '')] (Selected sample_tags))) = [''Stocks Rally'']"
    by (simp add: mt f1)
  have a2: "lower (strip (args_get [(''q'', ''SUMMARY FOR: HEAT'')] ''q'' [])) = ''summary for: heat''"
           "args_get [(''q'', ''SUMMARY FOR: HEAT'')] ''category'' ''All'' = ''All''"
    by code_simp+
  have f2: "map title (filter (\<lambda>n. sublist ''summary for: heat'' (lower (title n)) \<or>
                sublist ''summary for: heat'' (lower (content n))) ?L) = [''Heat Wave'']"
    by code_simp
  from index_search_filter[of "[(''q'', ''SUMMARY FOR: HEAT'')]" "Selected sample_tags", unfolded Let_def a2]
  have r2: "map title (tpl_news_list (index [(''q'', ''SUMMARY FOR: HEAT'')] (Selected sample_tags))) = [''Heat Wave'']"
    by (simp add: mt f2)
  have a3: "lower (strip (args_get [(''q'', ''A'')] ''q'' [])) = ''a''"
           "args_get [(''q'', ''A'')] ''category'' ''All'' = ''All''"
    by code_simp+
  have f3: "map title (filter (\<lambda>n. sublist ''a'' (lower (title n)) \<or>
                sublist ''a'' (lower (content n))) ?L) = [''Stocks Rally'', ''Heat Wave'', ''Bank Merger'']"
    by code_simp
  from index_search_filter[of "[(''q'', ''A'')]" "Selected sample_tags", unfolded Let_def a3]
  have r3: "map title (tpl_news_list (index [(''q'', ''A'')] (Selected sample_tags)))
       = [''Stocks Rally'', ''Heat Wave'', ''Bank Merger'']"
    by (simp add: mt f3)
  have a4: "lower (strip (args_get [(''q'', ''A''), (''category'', ''Business'')] ''q'' [])) = ''a''"
           "args_get [(''q'', ''A''), (''category'', ''Business'')] ''category'' ''All'' = ''Business''"
    by code_simp+
  have f4: "map title (filter (\<lambda>n. category n = ''Business'' \<and> (sublist ''a'' (lower (title n)) \<or>
                sublist ''a'' (lower (content n)))) ?L) = [''Stocks Rally'', ''Bank Merger'']"
    by code_simp
  from index_search_filter[of "[(''q'', ''A''), (''category'', ''Business'')]" "Selected sample_tags",
      unfolded Let_def a4]
  have r4: "map title (tpl_news_list (index [(''q'', ''A''), (''category'', ''Business'')] (Selected sample_tags)))
       = [''Stocks Rally'', ''Bank Merger'']"
    by (simp add: mt f4)
  from r1 r2 r3 r4 show ?thesis by blast
qed

text \<open>
  Claim C6. For every integer index and every fetch outcome, the detail lookup returns the
  item at that 1-based position of the fetched list when the index is within
  \<open>1..length\<close>, and the first item of the list otherwise; the list is never empty, so the
  lookup never raises.
\<close>

theorem detail_lookup:
  "get_bbc_news 30 resp \<noteq> [] \<and>
   detail news_id resp =
     Inr (if 1 \<le> news_id \<and> news_id \<le> int (length (get_bbc_news 30 resp))
          then get_bbc_news 30 resp ! nat (news_id - 1)
          else hd (get_bbc_news 30 resp))"
proof -
  let ?L = "get_bbc_news 30 resp"
  have ne: "?L \<noteq> []" by (rule get_bbc_news_nonempty)
  then have "0 < length ?L" by simp
  then show ?thesis using ne
    by (auto simp add: detail_def getitem_def Let_def hd_conv_nth)
qed

text \<open>The theorem on the sample page, at indices inside and outside the range.\<close>

theorem detail_lookup_witness:
  "map title (get_bbc_news 30 (Selected sample_tags)) = [''Stocks Rally'', ''Heat Wave'', ''Bank Merger'']
   \<and> map_sum id title (detail 2 (Selected sample_tags)) = Inr ''Heat Wave''
   \<and> map_sum id title (detail 3 (Selected sample_tags)) = Inr ''Bank Merger''
   \<and> map_sum id title (detail 0 (Selected sample_tags)) = Inr ''Stocks Rally''
   \<and> map_sum id title (detail 4 (Selected sample_tags)) = Inr ''Stocks Rally''
   \<and> map_sum id title (detail (- 1) (Selected sample_tags)) = Inr ''Stocks Rally''"
proof -
  let ?L = "get_bbc_news 30 (Selected sample_tags)"
  have L: "map title ?L = [''Stocks Rally'', ''Heat Wave'', ''Bank Merger'']" by code_simp
  have len: "length ?L = 3" using arg_cong[OF L, of length] by simp
  have n: "title (?L ! 0) = ''Stocks Rally''" "title (?L ! 1) = ''Heat Wave''"
          "title (?L ! 2) = ''Bank Merger''" "title (hd ?L) = ''Stocks Rally''"
    by code_simp+
  have n1: "title (?L ! Suc 0) = ''Heat Wave''" using n(2) by simp
  have "map_sum id title (detail k (Selected sample_tags)) =
      Inr (title (if 1 \<le> k \<and> k \<le> 3 then ?L ! nat (k - 1) else hd ?L))" for k
    using detail_lookup[of "Selected sample_tags" k] by (simp add: len)
  note D = this
  show ?thesis using L n n1 by (simp add: D)
qed

text \<open>
  Claim C7 fails on the code: the id of a scraped item is the position of its element among
  the selected ones, skipped elements included. On a page whose first element has no text
  and whose second has one, the single returned item has id 2, not 1.
\<close>

theorem scrape_ids_not_contiguous:
  "map item_id
     (get_bbc_news 30
        (Selected [\<lparr>get_text = [], parent_href = None\<rparr>,
                   \<lparr>get_text = ''Hello'', parent_href = Some ''/news/1''\<rparr>])) = [2]"
  by code_simp

text \<open>
  Claim C8. When the parsed body is not an object, or has no \<open>question\<close>, or its
  \<open>question\<close> is empty (false as a Python value), \<open>ask\<close> answers with status 400 and the
  fixed warning; the model is not called, and the answer is not a local echo.
\<close>

theorem ask_missing_question:
  "(\<forall>d v. data = JObj d \<and> map_of d ''question'' = Some v \<longrightarrow> \<not> truthy v) \<Longrightarrow>
   ask env (Inr data) =
     \<lparr>status = 400, answer = warning_sign @ '' No question provided.'', model_calls = []\<rparr>
   \<and> (\<forall>s. answer (ask env (Inr data)) \<noteq> ''(local) You asked: '' @ s)"
proof -
  assume h: "\<forall>d v. data = JObj d \<and> map_of d ''question'' = Some v \<longrightarrow> \<not> truthy v"
  have "\<not> truthy (case data of JObj d \<Rightarrow> dict_get d ''question'' | _ \<Rightarrow> JNull)"
    using h by (cases data) (auto simp add: dict_get_def split: option.splits)
  then have a: "ask env (Inr data) =
     \<lparr>status = 400, answer = warning_sign @ '' No question provided.'', model_calls = []\<rparr>"
    by (simp add: ask_def Let_def)
  have "warning_sign @ '' No question provided.'' \<noteq> ''(local) You asked: '' @ s" for s
    by (simp add: warning_sign_def)
  with a show ?thesis by simp
qed

text \<open>
  The theorem on an empty question with a model configured, on an object without a
  question, and on a body that is a list.
\<close>

theorem ask_missing_question_witness:
  "ask \<lparr>genai_available = True, model = Some (\<lambda>q. GenResponse (Some ''yes'') ''r''),
        py_str = (\<lambda>v. ''?'')\<rparr> (Inr (JObj [(''question'', JStr [])]))
     = \<lparr>status = 400, answer = warning_sign @ '' No question provided.'', model_calls = []\<rparr>
   \<and> ask \<lparr>genai_available = False, model = None, py_str = (\<lambda>v. ''?'')\<rparr>
        (Inr (JObj [(''other'', JStr ''x'')]))
     = \<lparr>status = 400, answer = warning_sign @ '' No question provided.'', model_calls = []\<rparr>
   \<and> ask \<lparr>genai_available = False, model = None, py_str = (\<lambda>v. ''?'')\<rparr>
        (Inr (JArr [JStr ''question'']))
     = \<lparr>status = 400, answer = warning_sign @ '' No question provided.'', model_calls = []\<rparr>"
proof -
  have h1: "\<forall>d v. JObj [(''question'', JStr [])] = JObj d \<and> map_of d ''question'' = Some v
      \<longrightarrow> \<not> truthy v" by simp
  have h2: "\<forall>d v. JObj [(''other'', JStr ''x'')] = JObj d \<and> map_of d ''question'' = Some v
      \<longrightarrow> \<not> truthy v" by simp
  have h3: "\<forall>d v. JArr [JStr ''question''] = JObj d \<and> map_of d ''question'' = Some v
      \<longrightarrow> \<not> truthy v" by simp
  from ask_missing_question[OF h1] ask_missing_question[OF h2] ask_missing_question[OF h3]
  show ?thesis by blast
qed

text \<open>
  Claim C9. When the body is an object with a non-empty \<open>question\<close> and no model is
  configured, \<open>ask\<close> answers with status 200 and the text \<open>(local) You asked: \<close> followed by
  the question as the f-string formats it, which for a string is the string itself; the
  model is not called.
\<close>

theorem ask_local_echo:
  "map_of d ''question'' = Some v \<Longrightarrow> truthy v \<Longrightarrow>
   \<not> (genai_available env \<and> model env \<noteq> None) \<Longrightarrow>
   ask env (Inr (JObj d)) =
     \<lparr>status = 200, answer = ''(local) You asked: '' @ format_value env v, model_calls = []\<rparr>
   \<and> (\<forall>q. v = JStr q \<longrightarrow> format_value env v = q)"
  by (auto simp add: ask_def Let_def dict_get_def format_value_def split: option.splits)

text \<open>The theorem on a string question with no model configured.\<close>

theorem ask_local_echo_witness:
  "ask \<lparr>genai_available = False, model = None, py_str = (\<lambda>v. ''?'')\<rparr>
       (Inr (JObj [(''question'', JStr ''Why is the sky blue?'')]))
     = \<lparr>status = 200, answer = ''(local) You asked: Why is the sky blue?'', model_calls = []\<rparr>"
proof -
  let ?env = "\<lparr>genai_available = False, model = None, py_str = (\<lambda>v. ''?'')\<rparr>"
  have h1: "map_of [(''question'', JStr ''Why is the sky blue?'')] ''question''
      = Some (JStr ''Why is the sky blue?'')" by simp
  have h2: "truthy (JStr ''Why is the sky blue?'')" by simp
  have h3: "\<not> (genai_available ?env \<and> model ?env \<noteq> None)" by simp
  from ask_local_echo[OF h1 h2 h3] show ?thesis by simp
qed

text \<open>
  Claim C10. \<open>get_bbc_news\<close> never returns the empty list, for any limit and any fetch
  outcome, so reading position 0 of its result succeeds and \<open>detail\<close> always returns an
  item.
\<close>

theorem get_bbc_news_never_empty:
  "get_bbc_news max_items resp \<noteq> [] \<and>
   getitem (get_bbc_news max_items resp) 0 = Inr (hd (get_bbc_news max_items resp)) \<and>
   (\<exists>n. detail news_id resp = Inr n)"
proof -
  have ne: "get_bbc_news m resp \<noteq> []" for m by (rule get_bbc_news_nonempty)
  then have "0 < length (get_bbc_news m resp)" for m by simp
  then show ?thesis using ne
    by (auto simp add: detail_def getitem_def Let_def hd_conv_nth)
qed

text \<open>The theorem on a page with no matching element.\<close>

theorem get_bbc_news_never_empty_witness:
  "get_bbc_news 30 (Selected []) \<noteq> []
   \<and> title (hd (get_bbc_news 30 (Selected []))) = ''AI is Transforming the World''
   \<and> map_sum id title (getitem (get_bbc_news 30 (Selected [])) 0) = Inr ''AI is Transforming the World''
   \<and> isl (detail 7 (Selected [])) = False"
proof -
  note T = get_bbc_news_never_empty[of 30 "Selected []" 7]
  have h: "title (hd (get_bbc_news 30 (Selected []))) = ''AI is Transforming the World''"
    by code_simp
  from T obtain n where "detail 7 (Selected []) = Inr n" by blast
  then have "isl (detail 7 (Selected [])) = False" by simp
  with T h show ?thesis by simp
qed

end
